theory Spec2Isabelle
  imports Main
begin

section \<open>The stack pool of \<^verbatim>\<open>stack_pool.hpp\<close>\<close>

text \<open>
  The model is the instance \<^verbatim>\<open>stack_pool<int>\<close> (value type \<^verbatim>\<open>int\<close>, handle type
  \<^verbatim>\<open>std::size_t\<close>) that the header's example and the timing driver use.

  \<^item> Values are only stored and copied, never computed with, so they are HOL integers.
  \<^item> Handles are unsigned; they are natural numbers here. The one place where the unsigned
    arithmetic wraps is \<^verbatim>\<open>pool[x - 1]\<close> at \<^verbatim>\<open>x = 0\<close>: the index is then \<^verbatim>\<open>SIZE_MAX\<close>,
    which is beyond the size of every vector. That case is written out in \<open>node\<close>.
  \<^item> \<^verbatim>\<open>std::vector::operator[]\<close> does not check its index. An index that is not below
    \<^verbatim>\<open>size()\<close> is undefined behaviour; the model stops there with the outcome
    \<open>OutOfBounds\<close> instead of inventing a value.
  \<^item> Every member function takes the pool and returns either a failure or its result
    together with the pool it leaves behind.
  \<^item> Allocation by the vector is assumed to succeed.
\<close>

subsection \<open>Failures\<close>

datatype exn =
    EmptyStackException
  | NotStackHeadException
  | NotEqualTypeException
  | RangeCheckingException

text \<open>
  \<open>Throws e\<close>: the exception \<open>e\<close> leaves the function. \<open>Terminate\<close>: an exception tried to
  leave a \<^verbatim>\<open>noexcept\<close> function. \<open>OutOfBounds\<close>: an element of the vector was accessed
  at an index that is not below its size.
\<close>

datatype failure = Throws exn | Terminate | OutOfBounds

definition bind :: "failure + 'a \<Rightarrow> ('a \<Rightarrow> failure + 'b) \<Rightarrow> failure + 'b" where
  "bind m f = (case m of Inl e \<Rightarrow> Inl e | Inr a \<Rightarrow> f a)"

fun noexcept :: "failure \<Rightarrow> failure" where
  "noexcept (Throws e) = Terminate"
| "noexcept Terminate = Terminate"
| "noexcept OutOfBounds = OutOfBounds"

subsection \<open>Nodes and the pool\<close>

record node_t =
  node_value :: int
  node_next :: nat
  node_isHead :: bool

text \<open>
  \<open>pool\<close> holds the elements of the vector (its length is \<^verbatim>\<open>pool.size()\<close>),
  \<open>pool_capacity\<close> is \<^verbatim>\<open>pool.capacity()\<close>.
\<close>

record stack_pool =
  pool :: "node_t list"
  pool_capacity :: nat
  free_nodes :: nat

definition end_sp :: "stack_pool \<Rightarrow> nat" where
  "end_sp p = 0"

definition empty :: "stack_pool \<Rightarrow> nat \<Rightarrow> bool" where
  "empty p x = (x = end_sp p)"

definition capacity :: "stack_pool \<Rightarrow> nat" where
  "capacity p = pool_capacity p"

definition new_stack :: "stack_pool \<Rightarrow> nat" where
  "new_stack p = end_sp p"

text \<open>
  \<^verbatim>\<open>reserve(n)\<close> raises the capacity of the vector to \<open>n\<close> when it is smaller, and
  leaves its elements alone.
\<close>

definition reserve :: "nat \<Rightarrow> stack_pool \<Rightarrow> stack_pool" where
  "reserve n p = p\<lparr>pool_capacity := max n (pool_capacity p)\<rparr>"

text \<open>The two constructors: \<^verbatim>\<open>stack_pool()\<close> and \<^verbatim>\<open>stack_pool(n)\<close>, which reserves \<open>n\<close> slots.\<close>

definition stack_pool_default :: stack_pool where
  "stack_pool_default = \<lparr>pool = [], pool_capacity = 0, free_nodes = 0\<rparr>"

definition stack_pool_n :: "nat \<Rightarrow> stack_pool" where
  "stack_pool_n n = reserve n stack_pool_default"

text \<open>
  \<^verbatim>\<open>node(x)\<close>: throws when \<open>x\<close> exceeds the capacity, otherwise indexes the vector at
  \<open>x - 1\<close>. The result is the index of the slot the returned reference denotes.
\<close>

definition node :: "stack_pool \<Rightarrow> nat \<Rightarrow> failure + nat" where
  "node p x =
     (if x > capacity p then Inl (Throws RangeCheckingException)
      else if x = 0 then Inl OutOfBounds
      else if x - 1 < length (pool p) then Inr (x - 1)
      else Inl OutOfBounds)"

text \<open>The accessors, read through the reference that \<open>node\<close> returns.\<close>

definition value_sp :: "stack_pool \<Rightarrow> nat \<Rightarrow> failure + int" where
  "value_sp p x = bind (node p x) (\<lambda>i. Inr (node_value (pool p ! i)))"

definition next_sp :: "stack_pool \<Rightarrow> nat \<Rightarrow> failure + nat" where
  "next_sp p x = bind (node p x) (\<lambda>i. Inr (node_next (pool p ! i)))"

definition isHead :: "stack_pool \<Rightarrow> nat \<Rightarrow> failure + bool" where
  "isHead p x = bind (node p x) (\<lambda>i. Inr (node_isHead (pool p ! i)))"

text \<open>The same accessors, assigned through: \<^verbatim>\<open>value(x) = v\<close>, \<^verbatim>\<open>next(x) = n\<close>, \<^verbatim>\<open>isHead(x) = b\<close>.\<close>

definition set_value :: "nat \<Rightarrow> int \<Rightarrow> stack_pool \<Rightarrow> failure + stack_pool" where
  "set_value x v p =
     bind (node p x) (\<lambda>i. Inr (p\<lparr>pool := (pool p)[i := (pool p ! i)\<lparr>node_value := v\<rparr>]\<rparr>))"

definition set_next :: "nat \<Rightarrow> nat \<Rightarrow> stack_pool \<Rightarrow> failure + stack_pool" where
  "set_next x n p =
     bind (node p x) (\<lambda>i. Inr (p\<lparr>pool := (pool p)[i := (pool p ! i)\<lparr>node_next := n\<rparr>]\<rparr>))"

definition set_isHead :: "nat \<Rightarrow> bool \<Rightarrow> stack_pool \<Rightarrow> failure + stack_pool" where
  "set_isHead x b p =
     bind (node p x) (\<lambda>i. Inr (p\<lparr>pool := (pool p)[i := (pool p ! i)\<lparr>node_isHead := b\<rparr>]\<rparr>))"

subsection \<open>Push\<close>

text \<open>
  \<^verbatim>\<open>emplace_back\<close>: appends one node. When the vector is full it reallocates; the new
  capacity is the one the GNU library chooses (size plus the larger of size and one).
  What the proofs use of it is only that the new element fits.
\<close>

definition emplace_back :: "int \<Rightarrow> nat \<Rightarrow> bool \<Rightarrow> stack_pool \<Rightarrow> stack_pool" where
  "emplace_back v n h p =
     p\<lparr>pool := pool p @ [\<lparr>node_value = v, node_next = n, node_isHead = h\<rparr>],
       pool_capacity :=
         (if length (pool p) < pool_capacity p then pool_capacity p
          else length (pool p) + max (length (pool p)) 1)\<rparr>"

text \<open>
  \<^verbatim>\<open>_push\<close> is a template over the type \<open>X\<close> of its forwarding reference \<^verbatim>\<open>X&& val\<close>. The
  two public overloads instantiate it differently:
  \<^item> \<^verbatim>\<open>push(const T& val, head)\<close> passes the lvalue \<^verbatim>\<open>val\<close> of type \<^verbatim>\<open>const T\<close>, so \<open>X\<close> is
    deduced as \<^verbatim>\<open>const T&\<close>;
  \<^item> \<^verbatim>\<open>push(T&& val, head)\<close> passes \<^verbatim>\<open>std::move(val)\<close>, an rvalue of type \<open>T\<close>, so \<open>X\<close> is
    deduced as \<open>T\<close>.
  \<^verbatim>\<open>std::is_same<X, value_type>\<close> compares \<open>X\<close> with \<open>T\<close> itself.
\<close>

datatype deduced_type = T_value | T_const_lvalue_ref

definition is_same_value_type :: "deduced_type \<Rightarrow> bool" where
  "is_same_value_type X = (X = T_value)"

definition priv_push :: "deduced_type \<Rightarrow> int \<Rightarrow> nat \<Rightarrow> stack_pool \<Rightarrow> failure + nat \<times> stack_pool" where
  "priv_push X val head p =
     (if \<not> is_same_value_type X then Inl (Throws NotEqualTypeException)
      else if \<not> empty p (free_nodes p) then
        (let t = free_nodes p in
         bind (set_value (free_nodes p) val p) (\<lambda>p1.
         bind (next_sp p1 (free_nodes p1)) (\<lambda>n.
         bind (set_next t head (p1\<lparr>free_nodes := n\<rparr>)) (\<lambda>p2.
         bind (set_isHead head False p2) (\<lambda>p3.
         bind (set_isHead t True p3) (\<lambda>p4.
         Inr (t, p4)))))))
      else
        (let p1 = emplace_back val head True p in
         bind (set_isHead head False p1) (\<lambda>p2.
         Inr (length (pool p2), p2))))"

definition push_lvalue :: "int \<Rightarrow> nat \<Rightarrow> stack_pool \<Rightarrow> failure + nat \<times> stack_pool" where
  "push_lvalue val head p = priv_push T_const_lvalue_ref val head p"

definition push_rvalue :: "int \<Rightarrow> nat \<Rightarrow> stack_pool \<Rightarrow> failure + nat \<times> stack_pool" where
  "push_rvalue val head p = priv_push T_value val head p"

subsection \<open>Pop and free_stack\<close>

definition pop :: "nat \<Rightarrow> stack_pool \<Rightarrow> failure + nat \<times> stack_pool" where
  "pop x p =
     bind (isHead p x) (\<lambda>b.
     if \<not> b then Inl (Throws NotStackHeadException)
     else if empty p x then Inl (Throws EmptyStackException)
     else
       bind (next_sp p x) (\<lambda>t.
       bind (set_next x (free_nodes p) p) (\<lambda>p1.
       bind (set_value x (- 1) (p1\<lparr>free_nodes := x\<rparr>)) (\<lambda>p2.
       bind (set_isHead t True p2) (\<lambda>p3.
       bind (set_isHead x False p3) (\<lambda>p4.
       Inr (t, p4)))))))"

text \<open>The loop of \<^verbatim>\<open>free_stack\<close>; \<open>None\<close> is the loop that never ends.\<close>

partial_function (option) free_stack :: "nat \<Rightarrow> stack_pool \<Rightarrow> (failure + nat \<times> stack_pool) option" where
  "free_stack x p =
     (if x \<noteq> end_sp p then
        (case pop x p of
           Inl e \<Rightarrow> Some (Inl e)
         | Inr (t, p') \<Rightarrow> free_stack t p')
      else Some (Inr (x, p)))"

subsection \<open>Traversal\<close>

text \<open>
  \<^verbatim>\<open>length\<close> walks a cursor from \<open>x\<close> until it equals the end cursor, counting. Advancing
  the cursor calls \<^verbatim>\<open>next\<close>; \<^verbatim>\<open>length\<close> is \<^verbatim>\<open>noexcept\<close>, so an exception from there ends
  the program.
\<close>

partial_function (option) length_loop :: "stack_pool \<Rightarrow> nat \<Rightarrow> nat \<Rightarrow> (failure + nat) option" where
  "length_loop p current l =
     (if current \<noteq> end_sp p then
        (case next_sp p current of
           Inl e \<Rightarrow> Some (Inl (noexcept e))
         | Inr n \<Rightarrow> length_loop p n (l + 1))
      else Some (Inr l))"

definition length_sp :: "stack_pool \<Rightarrow> nat \<Rightarrow> (failure + nat) option" where
  "length_sp p x = length_loop p x 0"

subsection \<open>Stacks as chains of handles\<close>

text \<open>
  \<open>is_chain p h xs\<close>: following \<^verbatim>\<open>next\<close> from the handle \<open>h\<close> visits exactly the handles
  \<open>xs\<close>, each read without failure, and then reaches the end handle \<open>0\<close>.
\<close>

fun is_chain :: "stack_pool \<Rightarrow> nat \<Rightarrow> nat list \<Rightarrow> bool" where
  "is_chain p h [] = (h = 0)"
| "is_chain p h (x # xs) =
     (h = x \<and> (case next_sp p x of Inl e \<Rightarrow> False | Inr n \<Rightarrow> is_chain p n xs))"

definition head_of :: "nat list \<Rightarrow> nat" where
  "head_of c = (case c of [] \<Rightarrow> 0 | x # xs \<Rightarrow> x)"



subsection \<open>A sample pool\<close>

text \<open>
  The pool in which slots 1 and 2 hold the stack with head 2 and slot 3, popped before,
  is the free list; it is used to instantiate the properties below.
\<close>

definition sample_pool :: stack_pool where
  "sample_pool =
     \<lparr>pool = [\<lparr>node_value = 10, node_next = 0, node_isHead = False\<rparr>,
              \<lparr>node_value = 20, node_next = 1, node_isHead = True\<rparr>,
              \<lparr>node_value = - 1, node_next = 0, node_isHead = False\<rparr>],
      pool_capacity = 4, free_nodes = 3\<rparr>"

section \<open>Properties\<close>

lemma bind_Inr [simp]: "bind (Inr a) f = f a"
  by (simp add: bind_def)

lemma bind_Inl [simp]: "bind (Inl e) f = Inl e"
  by (simp add: bind_def)

lemma bind_eq_Inr: "bind m f = Inr r \<longleftrightarrow> (\<exists>a. m = Inr a \<and> f a = Inr r)"
  by (cases m) simp_all

lemma node_zero [simp]: "node p 0 = Inl OutOfBounds"
  by (simp add: node_def)

lemma node_eq_Inr: "node p x = Inr i \<longleftrightarrow> x \<le> capacity p \<and> 0 < x \<and> x \<le> length (pool p) \<and> i = x - 1"
  by (auto simp: node_def)

subsection \<open>The emptiness test\<close>

text \<open>
  C10. \<open>empty\<close> depends on the handle only: it is true exactly for the handle \<open>0\<close>, in
  every pool, and two pools never disagree on it. It returns a plain truth value, so it
  cannot fail, and the handle need not name a slot of the pool.
\<close>

theorem empty_iff_sentinel:
  "empty p x = (x = 0) \<and> empty p x = empty q x"
  by (simp add: empty_def end_sp_def)

subsection \<open>The type test of push\<close>

text \<open>
  C1. The overload \<^verbatim>\<open>push(const T&, head)\<close> throws \<^verbatim>\<open>NotEqualTypeException\<close> for every
  value, every head and every pool, although the value has the pool's value type: the
  type deduced for the forwarding reference is \<^verbatim>\<open>const T&\<close>, which is not \<open>T\<close>. The
  overload \<^verbatim>\<open>push(T&&, head)\<close> never throws that exception.
\<close>

theorem push_lvalue_always_type_mismatch:
  "push_lvalue val head p = Inl (Throws NotEqualTypeException) \<and>
   push_rvalue val head p \<noteq> Inl (Throws NotEqualTypeException)"
proof -
  have no_mismatch: "bind m f \<noteq> Inl (Throws NotEqualTypeException)"
    if "m \<noteq> Inl (Throws NotEqualTypeException)"
      and "\<And>a. f a \<noteq> Inl (Throws NotEqualTypeException)"
    for m :: "failure + 'x" and f :: "'x \<Rightarrow> failure + 'y"
    using that by (cases m) simp_all
  have node_ok: "node q x \<noteq> Inl (Throws NotEqualTypeException)" for q x
    by (simp add: node_def)
  have "push_lvalue val head p = Inl (Throws NotEqualTypeException)"
    by (simp add: push_lvalue_def priv_push_def is_same_value_type_def)
  moreover have "push_rvalue val head p \<noteq> Inl (Throws NotEqualTypeException)"
    unfolding push_rvalue_def priv_push_def is_same_value_type_def Let_def
      set_value_def set_next_def set_isHead_def next_sp_def
    by (simp add: no_mismatch node_ok)
  ultimately show ?thesis by simp
qed

subsection \<open>The end handle as an argument\<close>

text \<open>
  C2. In every pool, \<^verbatim>\<open>pop(0)\<close> does not reach its test for the empty stack: the test
  of \<^verbatim>\<open>isHead(0)\<close> comes first and reads the vector at index \<^verbatim>\<open>0 - 1\<close>, out of bounds.
  No \<^verbatim>\<open>EmptyStackException\<close> is thrown.
\<close>

theorem pop_sentinel_out_of_bounds:
  "pop 0 p = Inl OutOfBounds \<and> pop 0 p \<noteq> Inl (Throws EmptyStackException)"
  by (simp add: pop_def isHead_def)

text \<open>
  C4. Pushing onto the empty stack of a new pool, and popping a stack of one node, both
  index the vector with the end handle: \<^verbatim>\<open>isHead(head) = false\<close> in push and
  \<^verbatim>\<open>isHead(t) = true\<close> in pop are not guarded.
\<close>

theorem push_pop_index_sentinel:
  "push_rvalue 10 0 stack_pool_default = Inl OutOfBounds \<and>
   pop 1 \<lparr>pool = [\<lparr>node_value = 10, node_next = 0, node_isHead = True\<rparr>],
          pool_capacity = 1, free_nodes = 0\<rparr> = Inl OutOfBounds"
  by (simp add: push_rvalue_def priv_push_def is_same_value_type_def empty_def end_sp_def
      stack_pool_default_def emplace_back_def set_isHead_def pop_def isHead_def next_sp_def
      set_next_def set_value_def node_def capacity_def)

text \<open>
  C6. The first push of the timing driver, \<^verbatim>\<open>pool.push(i, s1)\<close> on \<^verbatim>\<open>stack_pool<int> pool(1000)\<close>
  with the new stack \<^verbatim>\<open>s1\<close>, returns no head: the overload for lvalues throws
  \<^verbatim>\<open>NotEqualTypeException\<close>. The overload for rvalues, at the same arguments, indexes
  the vector out of bounds.
\<close>

theorem first_push_on_new_stack_fails:
  "push_lvalue 0 (new_stack (stack_pool_n 1000)) (stack_pool_n 1000)
     = Inl (Throws NotEqualTypeException) \<and>
   push_rvalue 0 (new_stack (stack_pool_n 1000)) (stack_pool_n 1000) = Inl OutOfBounds"
  by (simp add: push_lvalue_def push_rvalue_def priv_push_def is_same_value_type_def
      empty_def end_sp_def new_stack_def stack_pool_n_def reserve_def stack_pool_default_def emplace_back_def set_isHead_def
      node_def capacity_def)

text \<open>
  C7. In no pool does a push onto the end handle return a new head, whichever overload
  is used; so there is nothing to pop afterwards.
\<close>

theorem push_on_sentinel_never_returns:
  "\<not> (\<exists>r. priv_push X v (new_stack p) p = Inr r)"
  by (auto simp: priv_push_def new_stack_def end_sp_def Let_def bind_eq_Inr set_isHead_def)

subsection \<open>The range check of the accessors\<close>

text \<open>
  C3. The accessors do not throw \<^verbatim>\<open>RangeCheckingException\<close> for every handle that names
  no allocated slot. For the end handle, in every pool, and for handle 5 in the pool
  \<^verbatim>\<open>stack_pool<int> pool(1000)\<close>, which has reserved 1000 slots and allocated none, each
  of \<^verbatim>\<open>value\<close>, \<^verbatim>\<open>next\<close> and \<^verbatim>\<open>isHead\<close> passes the test of \<^verbatim>\<open>node\<close>, which compares
  the handle with \<^verbatim>\<open>capacity()\<close> only, and indexes the vector out of bounds.
\<close>

theorem accessors_miss_unallocated_handles:
  "value_sp p 0 = Inl OutOfBounds \<and>
   next_sp p 0 = Inl OutOfBounds \<and>
   isHead p 0 = Inl OutOfBounds \<and>
   value_sp (stack_pool_n 1000) 5 = Inl OutOfBounds \<and>
   next_sp (stack_pool_n 1000) 5 = Inl OutOfBounds \<and>
   isHead (stack_pool_n 1000) 5 = Inl OutOfBounds"
  by (simp add: value_sp_def next_sp_def isHead_def node_def capacity_def stack_pool_n_def
      reserve_def stack_pool_default_def)

text \<open>
  For the handles of the allocated slots the accessors return the fields, and above the
  capacity they throw.
\<close>

lemma accessors_on_allocated_slot:
  assumes "0 < h" and "h \<le> length (pool p)" and "length (pool p) \<le> capacity p"
  shows "value_sp p h = Inr (node_value (pool p ! (h - 1)))"
    and "next_sp p h = Inr (node_next (pool p ! (h - 1)))"
    and "isHead p h = Inr (node_isHead (pool p ! (h - 1)))"
  using assms by (auto simp: value_sp_def next_sp_def isHead_def node_def)

lemma accessors_above_capacity:
  assumes "capacity p < h"
  shows "value_sp p h = Inl (Throws RangeCheckingException)"
    and "next_sp p h = Inl (Throws RangeCheckingException)"
    and "isHead p h = Inl (Throws RangeCheckingException)"
  using assms by (auto simp: value_sp_def next_sp_def isHead_def node_def)

subsection \<open>What the assignments change\<close>

lemma node_alt:
  "node p y = (if capacity p < y then Inl (Throws RangeCheckingException)
               else if y = 0 \<or> length (pool p) < y then Inl OutOfBounds else Inr (y - 1))"
  by (auto simp: node_def)

lemma next_sp_alt:
  "next_sp p y = (if capacity p < y then Inl (Throws RangeCheckingException)
               else if y = 0 \<or> length (pool p) < y then Inl OutOfBounds
               else Inr (node_next (pool p ! (y - 1))))"
  by (simp add: next_sp_def node_alt)

lemma isHead_alt:
  "isHead p y = (if capacity p < y then Inl (Throws RangeCheckingException)
               else if y = 0 \<or> length (pool p) < y then Inl OutOfBounds
               else Inr (node_isHead (pool p ! (y - 1))))"
  by (simp add: isHead_def node_alt)

lemma pred_eq_iff: "0 < x \<Longrightarrow> 0 < y \<Longrightarrow> (x - Suc 0 = y - Suc 0) = (x = y)"
  by arith

lemma set_value_Inr:
  "set_value x v p = Inr p' \<longleftrightarrow> 0 < x \<and> x \<le> length (pool p) \<and> x \<le> capacity p \<and>
     p' = p\<lparr>pool := (pool p)[x - 1 := (pool p ! (x - 1))\<lparr>node_value := v\<rparr>]\<rparr>"
  by (auto simp: set_value_def bind_eq_Inr node_eq_Inr)

lemma set_next_Inr:
  "set_next x n p = Inr p' \<longleftrightarrow> 0 < x \<and> x \<le> length (pool p) \<and> x \<le> capacity p \<and>
     p' = p\<lparr>pool := (pool p)[x - 1 := (pool p ! (x - 1))\<lparr>node_next := n\<rparr>]\<rparr>"
  by (auto simp: set_next_def bind_eq_Inr node_eq_Inr)

lemma set_isHead_Inr:
  "set_isHead x b p = Inr p' \<longleftrightarrow> 0 < x \<and> x \<le> length (pool p) \<and> x \<le> capacity p \<and>
     p' = p\<lparr>pool := (pool p)[x - 1 := (pool p ! (x - 1))\<lparr>node_isHead := b\<rparr>]\<rparr>"
  by (auto simp: set_isHead_def bind_eq_Inr node_eq_Inr)

lemma set_value_effect:
  assumes "set_value x v p = Inr p'"
  shows "next_sp p' = next_sp p" and "isHead p' = isHead p"
    and "free_nodes p' = free_nodes p"
    and "next_sp p x \<noteq> Inl OutOfBounds"
  using assms
  by (auto simp: set_value_Inr next_sp_alt isHead_alt fun_eq_iff capacity_def
      nth_list_update pred_eq_iff split: if_splits)

lemma set_next_effect:
  assumes "set_next x n p = Inr p'"
  shows "next_sp p' = (next_sp p)(x := Inr n)" and "isHead p' = isHead p"
    and "free_nodes p' = free_nodes p"
  using assms
  by (auto simp: set_next_Inr next_sp_alt isHead_alt fun_eq_iff capacity_def
      nth_list_update pred_eq_iff split: if_splits)

lemma set_isHead_effect:
  assumes "set_isHead x b p = Inr p'"
  shows "next_sp p' = next_sp p" and "isHead p' = (isHead p)(x := Inr b)"
    and "free_nodes p' = free_nodes p"
  using assms
  by (auto simp: set_isHead_Inr next_sp_alt isHead_alt fun_eq_iff capacity_def
      nth_list_update pred_eq_iff split: if_splits)

lemma free_nodes_update_effect:
  "next_sp (p\<lparr>free_nodes := n\<rparr>) = next_sp p" "isHead (p\<lparr>free_nodes := n\<rparr>) = isHead p"
  by (auto simp: next_sp_alt isHead_alt capacity_def fun_eq_iff)


lemma priv_push_free:
  assumes "priv_push X v h p = Inr (t, p')" and "free_nodes p \<noteq> 0"
  shows "t = free_nodes p" and "next_sp p t = Inr (free_nodes p')"
    and "next_sp p' = (next_sp p)(t := Inr h)"
    and "isHead p' = (isHead p)(h := Inr False, t := Inr True)"
    and "length (pool p') = length (pool p)"
    and "isHead p h \<noteq> Inl OutOfBounds"
proof -
  from assms obtain p1 n p2 p3 where
    s1: "set_value (free_nodes p) v p = Inr p1" and
    s2: "next_sp p1 (free_nodes p1) = Inr n" and
    s3: "set_next (free_nodes p) h (p1\<lparr>free_nodes := n\<rparr>) = Inr p2" and
    s4: "set_isHead h False p2 = Inr p3" and
    s5: "set_isHead (free_nodes p) True p3 = Inr p'" and
    t: "t = free_nodes p"
    by (auto simp: priv_push_def Let_def empty_def end_sp_def bind_eq_Inr split: if_splits)
  show "t = free_nodes p" by (rule t)
  have f': "free_nodes p' = n"
    using set_next_effect(3) [OF s3] set_isHead_effect(3) [OF s4] set_isHead_effect(3) [OF s5]
    by simp
  show "next_sp p t = Inr (free_nodes p')"
    using s2 set_value_effect(1,3) [OF s1] f' t by simp
  show "next_sp p' = (next_sp p)(t := Inr h)"
    using set_value_effect(1) [OF s1] set_next_effect(1) [OF s3] set_isHead_effect(1) [OF s4]
      set_isHead_effect(1) [OF s5] t
    by (simp add: free_nodes_update_effect)
  show "isHead p' = (isHead p)(h := Inr False, t := Inr True)"
    using set_value_effect(2) [OF s1] set_next_effect(2) [OF s3] set_isHead_effect(2) [OF s4]
      set_isHead_effect(2) [OF s5] t
    by (simp add: free_nodes_update_effect)
  show "length (pool p') = length (pool p)"
    using s1 s3 s4 s5 by (auto simp: set_value_Inr set_next_Inr set_isHead_Inr)
  show "isHead p h \<noteq> Inl OutOfBounds"
    using s1 s3 s4 by (auto simp: set_value_Inr set_next_Inr set_isHead_Inr isHead_alt capacity_def)
qed


lemma pop_effect:
  assumes "pop x p = Inr (t, p')"
  shows "isHead p x = Inr True" and "next_sp p x = Inr t"
    and "free_nodes p' = x"
    and "next_sp p' = (next_sp p)(x := Inr (free_nodes p))"
    and "isHead p' = (isHead p)(t := Inr True, x := Inr False)"
    and "length (pool p') = length (pool p)"
    and "isHead p t \<noteq> Inl OutOfBounds"
proof -
  from assms obtain p1 p2 p3 where
    h: "isHead p x = Inr True" and
    n: "next_sp p x = Inr t" and
    s1: "set_next x (free_nodes p) p = Inr p1" and
    s2: "set_value x (- 1) (p1\<lparr>free_nodes := x\<rparr>) = Inr p2" and
    s3: "set_isHead t True p2 = Inr p3" and
    s4: "set_isHead x False p3 = Inr p'"
    by (auto simp: pop_def bind_eq_Inr split: if_splits)
  show "isHead p x = Inr True" by (rule h)
  show "next_sp p x = Inr t" by (rule n)
  show "free_nodes p' = x"
    using set_value_effect(3) [OF s2] set_isHead_effect(3) [OF s3] set_isHead_effect(3) [OF s4]
    by simp
  show "next_sp p' = (next_sp p)(x := Inr (free_nodes p))"
    using set_next_effect(1) [OF s1] set_value_effect(1) [OF s2] set_isHead_effect(1) [OF s3]
      set_isHead_effect(1) [OF s4]
    by (simp add: free_nodes_update_effect)
  show "isHead p' = (isHead p)(t := Inr True, x := Inr False)"
    using set_next_effect(2) [OF s1] set_value_effect(2) [OF s2] set_isHead_effect(2) [OF s3]
      set_isHead_effect(2) [OF s4]
    by (simp add: free_nodes_update_effect)
  show "length (pool p') = length (pool p)"
    using s1 s2 s3 s4 by (auto simp: set_value_Inr set_next_Inr set_isHead_Inr)
  show "isHead p t \<noteq> Inl OutOfBounds"
    using s1 s2 s3 by (auto simp: set_value_Inr set_next_Inr set_isHead_Inr isHead_alt capacity_def)
qed


lemma next_sp_zero [simp]: "next_sp p 0 = Inl OutOfBounds"
  by (simp add: next_sp_def)

lemma isHead_zero [simp]: "isHead p 0 = Inl OutOfBounds"
  by (simp add: isHead_def)

lemma is_chain_Cons:
  "is_chain p h (x # xs) \<longleftrightarrow> h = x \<and> (\<exists>n. next_sp p x = Inr n \<and> is_chain p n xs)"
  by (auto split: sum.splits)

declare is_chain.simps(2) [simp del]

lemma is_chain_zero [simp]: "is_chain p 0 xs \<longleftrightarrow> xs = []"
  by (cases xs) (auto simp: is_chain_Cons)




lemma is_chain_unique:
  "is_chain p h xs \<Longrightarrow> is_chain p h ys \<Longrightarrow> xs = ys"
proof (induction xs arbitrary: h ys)
  case Nil
  then show ?case by simp
next
  case (Cons x xs)
  then show ?case by (cases ys) (auto simp: is_chain_Cons)
qed

lemma head_of_Cons [simp]: "head_of (x # xs) = x"
  by (simp add: head_of_def)

lemma head_of_Nil [simp]: "head_of [] = 0"
  by (simp add: head_of_def)




lemmas eval_defs = sample_pool_def priv_push_def pop_def is_same_value_type_def empty_def
  end_sp_def set_value_def set_next_def set_isHead_def next_sp_def isHead_def value_sp_def
  node_def capacity_def emplace_back_def Let_def numeral_2_eq_2 numeral_3_eq_3

subsection \<open>The head marks\<close>



subsection \<open>Reuse of freed slots\<close>

text \<open>
  A push that returns while the free list is not empty returns the head of the free list
  and leaves the size of the vector as it is; after a pop of \<open>f\<close> that head is \<open>f\<close>.
\<close>

lemma returning_push_takes_free_head:
  assumes "priv_push X v h p = Inr (t, p')" and "free_nodes p \<noteq> 0"
  shows "t = free_nodes p" and "length (pool p') = length (pool p)"
  using priv_push_free(1,5) [OF assms] by simp_all

lemma pop_fills_free_list:
  assumes "pop f p = Inr (s, p')"
  shows "free_nodes p' = f" and "f \<noteq> 0" and "length (pool p') = length (pool p)"
proof -
  show "free_nodes p' = f" "length (pool p') = length (pool p)"
    using pop_effect(3,6) [OF assms] by simp_all
  show "f \<noteq> 0" using pop_effect(1) [OF assms] by (cases "f = 0") simp_all
qed

text \<open>
  C8. With a free list that is not empty, the next push need not return the head of the
  free list: it may return nothing. In the sample pool, whose free list is slot 3, the
  overload for lvalues throws \<^verbatim>\<open>NotEqualTypeException\<close> when pushing onto the live stack
  2, and the overload for rvalues indexes the vector out of bounds when pushing onto a
  new stack. So it is right after \<^verbatim>\<open>pop(2)\<close> has freed slot 2: the push of an lvalue onto
  the returned head 1 throws.
\<close>

theorem push_with_free_list_may_fail:
  "free_nodes sample_pool \<noteq> 0 \<and>
   push_lvalue 30 2 sample_pool = Inl (Throws NotEqualTypeException) \<and>
   push_rvalue 30 (new_stack sample_pool) sample_pool = Inl OutOfBounds \<and>
   pop 2 sample_pool = Inr (1,
     \<lparr>pool = [\<lparr>node_value = 10, node_next = 0, node_isHead = True\<rparr>,
              \<lparr>node_value = - 1, node_next = 3, node_isHead = False\<rparr>,
              \<lparr>node_value = - 1, node_next = 0, node_isHead = False\<rparr>],
      pool_capacity = 4, free_nodes = 2\<rparr>) \<and>
   push_lvalue 40 1
     \<lparr>pool = [\<lparr>node_value = 10, node_next = 0, node_isHead = True\<rparr>,
              \<lparr>node_value = - 1, node_next = 3, node_isHead = False\<rparr>,
              \<lparr>node_value = - 1, node_next = 0, node_isHead = False\<rparr>],
      pool_capacity = 4, free_nodes = 2\<rparr> = Inl (Throws NotEqualTypeException)"
proof -
  have "free_nodes sample_pool \<noteq> 0"
    by (simp add: sample_pool_def)
  moreover have "push_lvalue 30 2 sample_pool = Inl (Throws NotEqualTypeException)"
    by (simp add: push_lvalue_def priv_push_def is_same_value_type_def)
  moreover have "push_rvalue 30 (new_stack sample_pool) sample_pool = Inl OutOfBounds"
    by (simp add: push_rvalue_def new_stack_def eval_defs)
  moreover have "pop 2 sample_pool = Inr (1,
     \<lparr>pool = [\<lparr>node_value = 10, node_next = 0, node_isHead = True\<rparr>,
              \<lparr>node_value = - 1, node_next = 3, node_isHead = False\<rparr>,
              \<lparr>node_value = - 1, node_next = 0, node_isHead = False\<rparr>],
      pool_capacity = 4, free_nodes = 2\<rparr>)"
    by (simp add: eval_defs)
  moreover have "push_lvalue 40 1 q = Inl (Throws NotEqualTypeException)" for q
    by (simp add: push_lvalue_def priv_push_def is_same_value_type_def)
  ultimately show ?thesis by simp
qed

subsection \<open>The traversals\<close>

text \<open>
  When following \<^verbatim>\<open>next\<close> from \<open>h\<close> reaches the end handle after the nodes \<open>xs\<close>,
  \<^verbatim>\<open>length(h)\<close> returns, and returns the number of these nodes.
\<close>

lemma length_loop_chain:
  "is_chain p h xs \<Longrightarrow> length_loop p h l = Some (Inr (l + length xs))"
proof (induction xs arbitrary: h l)
  case Nil
  then show ?case by (subst length_loop.simps) (simp add: end_sp_def)
next
  case (Cons x xs)
  from Cons.prems obtain n where n: "h = x" "next_sp p x = Inr n" "is_chain p n xs"
    by (auto simp: is_chain_Cons)
  have "x \<noteq> 0" using n(2) by (cases "x = 0") simp_all
  then have "length_loop p h l = length_loop p n (l + 1)"
    using n by (subst length_loop.simps) (simp add: end_sp_def)
  then show ?case using Cons.IH [OF n(3), of "l + 1"] by simp
qed

lemma length_sp_chain:
  "is_chain p h xs \<Longrightarrow> length_sp p h = Some (Inr (length xs))"
  using length_loop_chain [of p h xs 0] by (simp add: length_sp_def)

text \<open>
  \<^verbatim>\<open>free_stack\<close> returns for the end handle only: a pop that returns has a successor
  other than the end handle, so the loop goes on until a pop fails.
\<close>

lemma pop_successor_nonzero:
  assumes "pop x p = Inr (t, p')"
  shows "t \<noteq> 0"
  using pop_effect(7) [OF assms] by (cases "t = 0") simp_all

lemma free_stack_returns_only_for_sentinel:
  assumes "free_stack h p = Some (Inr r)"
  shows "h = 0"
proof -
  let ?P = "\<lambda>(x::nat) (q::stack_pool) (y::failure + nat \<times> stack_pool). \<forall>r. y = Inr r \<longrightarrow> x = 0"
  have "(case (h, p) of (x, q) \<Rightarrow> ?P x q) (Inr r)"
  proof (rule free_stack.raw_induct [where P = ?P and xa = "(h, p)"])
    show "(case (h, p) of (x, q) \<Rightarrow> free_stack x q) = Some (Inr r)"
      using assms by simp
  next
    fix f x q y
    assume IH: "\<And>x q y. f x q = Some y \<Longrightarrow> ?P x q y"
      and eq: "(if x \<noteq> end_sp q
                then case pop x q of Inl e \<Rightarrow> Some (Inl e) | Inr (t, p') \<Rightarrow> f t p'
                else Some (Inr (x, q))) = Some y"
    show "?P x q y"
    proof (cases "x = 0")
      case True
      then show ?thesis by simp
    next
      case False
      show ?thesis
      proof (cases "pop x q")
        case (Inl e)
        then show ?thesis using eq False by (auto simp: end_sp_def)
      next
        case (Inr tp)
        obtain t q' where tp: "tp = (t, q')" by (cases tp)
        have rec: "f t q' = Some y"
          using eq False Inr tp by (simp add: end_sp_def)
        have "t \<noteq> 0" using pop_successor_nonzero [of x q t q'] Inr tp by simp
        then show ?thesis using IH [OF rec] by simp
      qed
    qed
  qed
  then show ?thesis by simp
qed

text \<open>
  C9. In the sample pool, handle 2 is the head of a live stack: following \<^verbatim>\<open>next\<close> from it
  reaches the end handle after the nodes 2 and 1, and it is marked as a head.
  \<^verbatim>\<open>length(2)\<close> returns 2. \<^verbatim>\<open>free_stack(2)\<close> does not return the end handle: its first pop
  returns 1, and its second pop, of the last node, assigns \<^verbatim>\<open>isHead(0)\<close> and so indexes
  the vector out of bounds.
\<close>

theorem free_stack_of_live_stack_out_of_bounds:
  "is_chain sample_pool 2 [2, 1] \<and>
   isHead sample_pool 2 = Inr True \<and>
   length_sp sample_pool 2 = Some (Inr 2) \<and>
   free_stack 2 sample_pool = Some (Inl OutOfBounds)"
proof -
  have chain: "is_chain sample_pool 2 [2, 1]"
    by (simp add: is_chain_Cons eval_defs)
  have head: "isHead sample_pool 2 = Inr True"
    by (simp add: eval_defs)
  have len: "length_sp sample_pool 2 = Some (Inr 2)"
    using length_sp_chain [OF chain] by simp
  have pop1: "pop 2 sample_pool = Inr (1,
     \<lparr>pool = [\<lparr>node_value = 10, node_next = 0, node_isHead = True\<rparr>,
              \<lparr>node_value = - 1, node_next = 3, node_isHead = False\<rparr>,
              \<lparr>node_value = - 1, node_next = 0, node_isHead = False\<rparr>],
      pool_capacity = 4, free_nodes = 2\<rparr>)"
    by (simp add: eval_defs)
  have pop2: "pop 1
     \<lparr>pool = [\<lparr>node_value = 10, node_next = 0, node_isHead = True\<rparr>,
              \<lparr>node_value = - 1, node_next = 3, node_isHead = False\<rparr>,
              \<lparr>node_value = - 1, node_next = 0, node_isHead = False\<rparr>],
      pool_capacity = 4, free_nodes = 2\<rparr> = Inl OutOfBounds"
    by (simp add: eval_defs)
  have step1: "free_stack 2 sample_pool = free_stack 1
     \<lparr>pool = [\<lparr>node_value = 10, node_next = 0, node_isHead = True\<rparr>,
              \<lparr>node_value = - 1, node_next = 3, node_isHead = False\<rparr>,
              \<lparr>node_value = - 1, node_next = 0, node_isHead = False\<rparr>],
      pool_capacity = 4, free_nodes = 2\<rparr>"
    by (subst free_stack.simps) (simp add: end_sp_def pop1)
  have "free_stack 2 sample_pool = Some (Inl OutOfBounds)"
    unfolding step1 by (subst free_stack.simps) (simp only: end_sp_def pop2, simp)
  then show ?thesis using chain head len by simp
qed

end
